theory Spec2Isabelle
  imports Complex_Main
begin

section \<open>Data model\<close>

text \<open>
  The development embeds the controller, the storage service and the thumbnail sampler of
  the clip tool. JavaScript numbers that hold times in seconds are reals here (rounding,
  NaN and the infinities of IEEE doubles are outside the model); counts and clock readings
  in milliseconds are naturals or integers.

  Record fields keep the names of the source; where two interfaces of the source share a
  field name the field carries a prefix (\<open>info_\<close> for \<open>VideoInfo\<close>, \<open>req_\<close> for the body of a
  download request, \<open>app_\<close> for the component's own state variables).
\<close>

datatype filesize_t = FilesizeNumber real | FilesizeString string

record VideoFormat =
  format_id :: string
  quality :: string
  ext :: string
  filesize :: filesize_t
  resolution :: string
  has_audio :: bool
  format_url :: string

record VideoInfo =
  info_title :: string
  info_duration :: real
  formats :: "VideoFormat list"

text \<open>An encoded still frame: the data URL of the frame the decoder showed at a position.\<close>

datatype image = Frame real

datatype Blob = Blob "nat list"

record StoredVideo =
  url :: string
  title :: string
  blob :: Blob
  timestamp :: int
  duration :: real
  thumbnails :: "image list option"

text \<open>
  The two DOM references of the component: the timeline element, of which the handlers read
  the bounding rectangle, and the preview video element, of which they set \<open>currentTime\<close>.
  A reference whose element is not mounted is \<open>None\<close>.
\<close>

record DOMRect =
  rect_left :: real
  rect_width :: real

record HTMLVideoElement =
  currentTime :: real

record MouseEvent =
  clientX :: real

datatype drag_handle = DragStart | DragEnd

record app_state =
  app_url :: string
  loading :: bool
  error :: string
  videoInfo :: "VideoInfo option"
  selectedFormat :: string
  startTime :: real
  endTime :: real
  acceptedDisclaimer :: bool
  storedVideos :: "StoredVideo list"
  previewUrl :: string
  videoRef :: "HTMLVideoElement option"
  timelineRef :: "DOMRect option"
  isDragging :: "drag_handle option"
  app_thumbnails :: "image list"

section \<open>Timeline handlers\<close>

text \<open>
  \<open>handleTimelineClick\<close>: returns at once unless the timeline, the video element and the
  video information are all present; otherwise the click position becomes a time, and a
  time inside \<open>[0, duration]\<close> sets one of the two edges and the playback position.
\<close>

definition clickTime :: "MouseEvent \<Rightarrow> DOMRect \<Rightarrow> VideoInfo \<Rightarrow> real" where
  "clickTime e rect info =
     (let x = clientX e - rect_left rect;
          percentage = x / rect_width rect
      in percentage * info_duration info)"

definition handleTimelineClick :: "MouseEvent \<Rightarrow> app_state \<Rightarrow> app_state" where
  "handleTimelineClick e s =
     (case (timelineRef s, videoRef s, videoInfo s) of
        (Some rect, Some video, Some info) \<Rightarrow>
          (let time = clickTime e rect info in
           if time \<ge> 0 \<and> time \<le> info_duration info then
             (let s' = (if \<bar>time - startTime s\<bar> < \<bar>time - endTime s\<bar>
                        then s\<lparr>startTime := max 0 (min time (endTime s - 1))\<rparr>
                        else s\<lparr>endTime := min (info_duration info) (max time (startTime s + 1))\<rparr>)
              in s'\<lparr>videoRef := Some (video\<lparr>currentTime := time\<rparr>)\<rparr>)
           else s)
      | _ \<Rightarrow> s)"

text \<open>
  \<open>handleMouseMove\<close>: only while a handle is dragged and the timeline and the video
  information are present. The pointer position is clamped into the rectangle first.
\<close>

definition moveTime :: "MouseEvent \<Rightarrow> DOMRect \<Rightarrow> VideoInfo \<Rightarrow> real" where
  "moveTime e rect info =
     (let x = max 0 (min (clientX e - rect_left rect) (rect_width rect));
          percentage = x / rect_width rect
      in percentage * info_duration info)"

definition setCurrentTime :: "real \<Rightarrow> HTMLVideoElement option \<Rightarrow> HTMLVideoElement option" where
  "setCurrentTime t ref = (case ref of None \<Rightarrow> None | Some video \<Rightarrow> Some (video\<lparr>currentTime := t\<rparr>))"

definition handleMouseMove :: "MouseEvent \<Rightarrow> app_state \<Rightarrow> app_state" where
  "handleMouseMove e s =
     (case (isDragging s, timelineRef s, videoInfo s) of
        (Some dragging, Some rect, Some info) \<Rightarrow>
          (let time = moveTime e rect info in
           if dragging = DragStart then
             (let newStart = max 0 (min time (endTime s - 1))
              in s\<lparr>startTime := newStart, videoRef := setCurrentTime newStart (videoRef s)\<rparr>)
           else
             (let newEnd = min (info_duration info) (max time (startTime s + 1))
              in s\<lparr>endTime := newEnd, videoRef := setCurrentTime newEnd (videoRef s)\<rparr>))
      | _ \<Rightarrow> s)"

text \<open>The clip-range invariant of the data model, for a video of duration \<open>D\<close>.\<close>

definition range_ok :: "real \<Rightarrow> app_state \<Rightarrow> bool" where
  "range_ok D s \<longleftrightarrow> 0 \<le> startTime s \<and> endTime s \<le> D \<and> endTime s - startTime s \<ge> 1"

text \<open>Pressing a handle starts a drag of that handle; releasing the button ends it.\<close>

definition handleMouseDown :: "MouseEvent \<Rightarrow> drag_handle \<Rightarrow> app_state \<Rightarrow> app_state" where
  "handleMouseDown e type s = s\<lparr>isDragging := Some type\<rparr>"

definition handleMouseUp :: "app_state \<Rightarrow> app_state" where
  "handleMouseUp s = s\<lparr>isDragging := None\<rparr>"

section \<open>The storage service\<close>

text \<open>
  \<open>VideoStorageService\<close> keeps its records in the object store \<open>videos\<close> of an IndexedDB
  database, created with \<open>keyPath: 'url'\<close>: the key of a record is its own \<open>url\<close> field. The
  object store is a list of records here; \<open>put\<close>, \<open>get\<close>, \<open>getAll\<close> and \<open>delete\<close> are the
  operations of the database handle the service calls. The position of a record in the
  list stands for no property of the object store.
\<close>

definition idb_put :: "StoredVideo \<Rightarrow> StoredVideo list \<Rightarrow> StoredVideo list" where
  "idb_put video store = video # filter (\<lambda>w. url w \<noteq> url video) store"

definition idb_get :: "string \<Rightarrow> StoredVideo list \<Rightarrow> StoredVideo option" where
  "idb_get key store = find (\<lambda>w. url w = key) store"

definition idb_getAll :: "StoredVideo list \<Rightarrow> StoredVideo list" where
  "idb_getAll store = store"

definition idb_delete :: "string \<Rightarrow> StoredVideo list \<Rightarrow> StoredVideo list" where
  "idb_delete key store = filter (\<lambda>w. url w \<noteq> key) store"

text \<open>
  The service object: \<open>db\<close> tells whether \<open>this.db\<close> holds the opened handle, \<open>videos\<close> is the
  content of the object store. A database that was never opened has an empty object store,
  which is what the \<open>upgrade\<close> callback of \<open>initialize\<close> creates.
\<close>

record VideoStorageService =
  db :: bool
  videos :: "StoredVideo list"

definition initialize :: "VideoStorageService \<Rightarrow> VideoStorageService" where
  "initialize st = st\<lparr>db := True\<rparr>"

definition storeVideo :: "StoredVideo \<Rightarrow> VideoStorageService \<Rightarrow> VideoStorageService" where
  "storeVideo video st =
     (let st1 = (if \<not> db st then initialize st else st)
      in st1\<lparr>videos := idb_put video (videos st1)\<rparr>)"

definition getVideo :: "string \<Rightarrow> VideoStorageService \<Rightarrow> StoredVideo option \<times> VideoStorageService" where
  "getVideo key st =
     (let st1 = (if \<not> db st then initialize st else st)
      in (idb_get key (videos st1), st1))"

definition getAllVideos :: "VideoStorageService \<Rightarrow> StoredVideo list \<times> VideoStorageService" where
  "getAllVideos st =
     (let st1 = (if \<not> db st then initialize st else st)
      in (idb_getAll (videos st1), st1))"

definition deleteVideo :: "string \<Rightarrow> VideoStorageService \<Rightarrow> VideoStorageService" where
  "deleteVideo key st =
     (let st1 = (if \<not> db st then initialize st else st)
      in st1\<lparr>videos := idb_delete key (videos st1)\<rparr>)"

definition dayInMs :: int where
  "dayInMs = 24 * 60 * 60 * 1000"

text \<open>
  \<open>cleanup\<close>: the list of all records and the clock are read once, then the loop deletes
  the records it finds too old. \<open>now\<close> is the reading of \<open>Date.now()\<close>.
\<close>

fun cleanupLoop :: "int \<Rightarrow> StoredVideo list \<Rightarrow> VideoStorageService \<Rightarrow> VideoStorageService" where
  "cleanupLoop now [] st = st"
| "cleanupLoop now (video # rest) st =
     cleanupLoop now rest
       (if now - timestamp video > dayInMs then deleteVideo (url video) st else st)"

definition cleanup :: "int \<Rightarrow> VideoStorageService \<Rightarrow> VideoStorageService" where
  "cleanup now st =
     (let st1 = (if \<not> db st then initialize st else st);
          (all_videos, st2) = getAllVideos st1
      in cleanupLoop now all_videos st2)"

section \<open>The thumbnail sampler\<close>

text \<open>
  \<open>generateThumbnails\<close> drives a video element through events and two kinds of timers. The
  behaviour of the element on the given blob is a parameter, a \<open>decoder\<close>: when (in
  milliseconds after the wait for it began) \<open>loadedmetadata\<close>, \<open>loadeddata\<close> or \<open>error\<close>
  fire, and for the seek of sample \<open>i\<close> to a position, when \<open>seeked\<close> fires and whether the
  frame can be captured. The clock starts at 0 when the function is called.

  Where an event and a timer are due at the same millisecond the timer is taken to run
  first, and the whole-operation timer, which was set first, before a per-seek timer.
\<close>

datatype gen_error =
    DecodeError
  | DecodeDataError
  | SeekTimeout
  | CaptureError string
  | GenerationTimeout

fun message :: "gen_error \<Rightarrow> string" where
  "message DecodeError = ''Failed to load video''"
| "message DecodeDataError = ''Failed to load video data''"
| "message SeekTimeout = ''Seek timeout''"
| "message (CaptureError m) = m"
| "message GenerationTimeout = ''Thumbnail generation timed out''"

datatype data_outcome = LoadedData nat | DataError nat | NoDataEvent

datatype load_outcome = LoadedMetadata nat real data_outcome | LoadError nat | NoLoadEvent

datatype seek_outcome = Seeked nat | SeekedCaptureFails nat string | NoSeekedEvent

record decoder =
  onload :: load_outcome
  onseek :: "nat \<Rightarrow> real \<Rightarrow> seek_outcome"

datatype timer = GenerationTimer | SeekTimer nat

text \<open>
  What the caller and the browser see at the moment the returned promise settles: the
  value or error, the clock, how often \<open>URL.revokeObjectURL\<close> has run, and the timers that
  are still set, each with the time at which it is due.
\<close>

record thumb_run =
  settled :: "gen_error + image list"
  settled_at :: nat
  revocations :: nat
  pending_timers :: "(timer \<times> nat) list"

definition seekTimeoutMs :: nat where
  "seekTimeoutMs = 5000"

definition generationTimeoutMs :: nat where
  "generationTimeoutMs = 30000"

text \<open>
  The three ways the promise settles. The callback of the whole-operation timer revokes
  the URL and rejects; the timers of a seek that is still awaited stay set. The \<open>catch\<close>
  block and the first \<open>onerror\<close> handler revoke and reject, the end of the \<open>try\<close> block
  revokes and resolves; in both the whole-operation timer, whose identifier the code does
  not keep, stays set.
\<close>

definition generationTimedOut :: "(timer \<times> nat) list \<Rightarrow> thumb_run" where
  "generationTimedOut seek_timers =
     \<lparr>settled = Inl GenerationTimeout, settled_at = generationTimeoutMs,
      revocations = 1, pending_timers = seek_timers\<rparr>"

definition rejected :: "gen_error \<Rightarrow> nat \<Rightarrow> thumb_run" where
  "rejected err now =
     \<lparr>settled = Inl err, settled_at = now,
      revocations = 1, pending_timers = [(GenerationTimer, generationTimeoutMs)]\<rparr>"

definition resolved :: "image list \<Rightarrow> nat \<Rightarrow> thumb_run" where
  "resolved thumbs now =
     \<lparr>settled = Inr thumbs, settled_at = now,
      revocations = 1, pending_timers = [(GenerationTimer, generationTimeoutMs)]\<rparr>"

text \<open>
  The sampling loop, from sample \<open>i\<close> at clock \<open>now\<close> with the frames captured so far. Each
  round sets the position, sets the per-seek timer and waits for \<open>seeked\<close>; the handler
  draws and encodes the frame, appends it and clears the per-seek timer.
\<close>

function sampleLoop :: "decoder \<Rightarrow> real \<Rightarrow> nat \<Rightarrow> nat \<Rightarrow> nat \<Rightarrow> image list \<Rightarrow> thumb_run" where
  "sampleLoop dec dur numThumbnails i now thumbs =
     (if i < numThumbnails then
        (let time = (dur * real i) / real numThumbnails;
             timeoutAt = now + seekTimeoutMs
         in case onseek dec i time of
              Seeked d \<Rightarrow>
                if generationTimeoutMs \<le> min (now + d) timeoutAt
                then generationTimedOut [(SeekTimer i, timeoutAt)]
                else if timeoutAt \<le> now + d then rejected SeekTimeout timeoutAt
                else sampleLoop dec dur numThumbnails (i + 1) (now + d) (thumbs @ [Frame time])
            | SeekedCaptureFails d m \<Rightarrow>
                if generationTimeoutMs \<le> min (now + d) timeoutAt
                then generationTimedOut [(SeekTimer i, timeoutAt)]
                else if timeoutAt \<le> now + d then rejected SeekTimeout timeoutAt
                else rejected (CaptureError m) (now + d)
            | NoSeekedEvent \<Rightarrow>
                if generationTimeoutMs \<le> timeoutAt
                then generationTimedOut [(SeekTimer i, timeoutAt)]
                else rejected SeekTimeout timeoutAt)
      else resolved thumbs now)"
  by pat_completeness auto
termination
  by (relation "measure (\<lambda>(dec, dur, numThumbnails, i, now, thumbs). numThumbnails - i)") auto

declare sampleLoop.simps [simp del]

definition generateThumbnails :: "decoder \<Rightarrow> nat \<Rightarrow> thumb_run" where
  "generateThumbnails dec numThumbnails =
     (case onload dec of
        NoLoadEvent \<Rightarrow> generationTimedOut []
      | LoadError t \<Rightarrow>
          if generationTimeoutMs \<le> t then generationTimedOut [] else rejected DecodeError t
      | LoadedMetadata t dur data \<Rightarrow>
          if generationTimeoutMs \<le> t then generationTimedOut []
          else (case data of
                  NoDataEvent \<Rightarrow> generationTimedOut []
                | DataError d \<Rightarrow>
                    if generationTimeoutMs \<le> t + d then generationTimedOut []
                    else rejected DecodeDataError (t + d)
                | LoadedData d \<Rightarrow>
                    if generationTimeoutMs \<le> t + d then generationTimedOut []
                    else sampleLoop dec dur numThumbnails 0 (t + d) []))"

definition defaultNumThumbnails :: nat where
  "defaultNumThumbnails = 20"

text \<open>
  Notions the properties of the sampler are stated with: the position of sample \<open>i\<close> of \<open>N\<close>
  in a video of duration \<open>D\<close>; the delay after which the \<open>seeked\<close> event of a seek fires, if
  it fires; and a run that settles no later than the whole-operation timer is due, at
  that very time exactly when it fails with \<open>GenerationTimeout\<close>, after one revocation of
  the URL, and with the whole-operation timer still set unless it is that timer which
  ended the run.
\<close>

abbreviation sampleTime :: "real \<Rightarrow> nat \<Rightarrow> nat \<Rightarrow> real" where
  "sampleTime D N i \<equiv> D * real i / real N"

fun seekedAfter :: "seek_outcome \<Rightarrow> nat option" where
  "seekedAfter (Seeked d) = Some d"
| "seekedAfter (SeekedCaptureFails d m) = Some d"
| "seekedAfter NoSeekedEvent = None"

definition settles_in_time :: "thumb_run \<Rightarrow> bool" where
  "settles_in_time r \<longleftrightarrow>
     settled_at r \<le> generationTimeoutMs
     \<and> (settled_at r = generationTimeoutMs \<longleftrightarrow> settled r = Inl GenerationTimeout)
     \<and> revocations r = 1
     \<and> (settled r \<noteq> Inl GenerationTimeout \<longrightarrow>
          pending_timers r = [(GenerationTimer, generationTimeoutMs)])"

section \<open>The submit handler\<close>

text \<open>
  \<open>handleGetFormats\<close> talks to the backend, the decoder and the clock. They are
  parameters: what \<open>POST /formats\<close> and \<open>POST /download\<close> answer (a rejected \<open>fetch\<close>, a
  response whose \<open>ok\<close> is false, or a body), how the video element behaves on a blob, the
  object URL the browser hands out for a blob, and the reading of \<open>Date.now()\<close>.
\<close>

datatype 'a fetch_result = NetworkFailure string | NotOk | Ok 'a

record DownloadRequest =
  req_url :: string
  req_format_id :: string

record environment =
  post_formats :: "string \<Rightarrow> VideoInfo fetch_result"
  post_download :: "DownloadRequest \<Rightarrow> Blob fetch_result"
  decode :: "Blob \<Rightarrow> decoder"
  createObjectURL :: "Blob \<Rightarrow> string"
  date_now :: int

text \<open>What a run of the handler does to the outside, in order.\<close>

datatype effect =
    FormatsRequested string
  | DownloadRequested DownloadRequest
  | StoreWritten StoredVideo

text \<open>The \<open>catch\<close> block followed by the \<open>finally\<close> block.\<close>

definition caught :: "string \<Rightarrow> app_state \<Rightarrow> app_state" where
  "caught msg s = s\<lparr>error := msg, loading := False\<rparr>"

definition handleGetFormats ::
  "environment \<Rightarrow> app_state \<Rightarrow> VideoStorageService \<Rightarrow> app_state \<times> VideoStorageService \<times> effect list" where
  "handleGetFormats env s storage =
     (let s0 = s\<lparr>loading := True, error := [], videoInfo := None, previewUrl := [],
                  app_thumbnails := [], selectedFormat := []\<rparr>;
          (existingVideo, storage1) = getVideo (app_url s) storage
      in case existingVideo of
           Some existing \<Rightarrow>
             (s0\<lparr>app_thumbnails := (case thumbnails existing of Some ts \<Rightarrow> ts | None \<Rightarrow> []),
                 videoInfo := Some \<lparr>info_title = title existing,
                                    info_duration = duration existing, formats = []\<rparr>,
                 previewUrl := createObjectURL env (blob existing),
                 loading := False\<rparr>,
              storage1, [])
         | None \<Rightarrow>
             (let sent1 = [FormatsRequested (app_url s)] in
              case post_formats env (app_url s) of
                NetworkFailure msg \<Rightarrow> (caught msg s0, storage1, sent1)
              | NotOk \<Rightarrow> (caught ''Failed to get video formats'' s0, storage1, sent1)
              | Ok data \<Rightarrow>
                  (case find has_audio (formats data) of
                     None \<Rightarrow> (caught ''No suitable preview format found'' s0, storage1, sent1)
                   | Some previewFormat \<Rightarrow>
                       (let s1 = s0\<lparr>videoInfo := Some data\<rparr>;
                            s2 = (if length (formats data) > 0
                                  then s1\<lparr>selectedFormat := format_id (hd (formats data))\<rparr>
                                  else s1);
                            downloadRequest = \<lparr>req_url = app_url s,
                                               req_format_id = format_id previewFormat\<rparr>;
                            sent2 = sent1 @ [DownloadRequested downloadRequest]
                        in case post_download env downloadRequest of
                             NetworkFailure msg \<Rightarrow> (caught msg s2, storage1, sent2)
                           | NotOk \<Rightarrow> (caught ''Failed to get video preview'' s2, storage1, sent2)
                           | Ok videoBlob \<Rightarrow>
                               (case settled (generateThumbnails (decode env videoBlob)
                                                defaultNumThumbnails) of
                                  Inl err \<Rightarrow> (caught (message err) s2, storage1, sent2)
                                | Inr newThumbnails \<Rightarrow>
                                    (let s3 = s2\<lparr>app_thumbnails := newThumbnails,
                                                 previewUrl := createObjectURL env videoBlob\<rparr>;
                                         newStoredVideo =
                                           \<lparr>url = app_url s, title = info_title data,
                                            blob = videoBlob, timestamp = date_now env,
                                            duration = info_duration data,
                                            thumbnails = Some newThumbnails\<rparr>;
                                         storage2 = storeVideo newStoredVideo storage1;
                                         (all_videos, storage3) = getAllVideos storage2
                                     in (s3\<lparr>storedVideos := all_videos, loading := False\<rparr>,
                                         storage3,
                                         sent2 @ [StoreWritten newStoredVideo])))))))"

text \<open>
  The parts of a run of the submit handler, and the download requests and store writes
  among its effects.
\<close>

definition app_after :: "environment \<Rightarrow> app_state \<Rightarrow> VideoStorageService \<Rightarrow> app_state" where
  "app_after env s storage = fst (handleGetFormats env s storage)"

definition storage_after ::
  "environment \<Rightarrow> app_state \<Rightarrow> VideoStorageService \<Rightarrow> VideoStorageService" where
  "storage_after env s storage = fst (snd (handleGetFormats env s storage))"

definition effects_of :: "environment \<Rightarrow> app_state \<Rightarrow> VideoStorageService \<Rightarrow> effect list" where
  "effects_of env s storage = snd (snd (handleGetFormats env s storage))"

fun downloadRequests :: "effect list \<Rightarrow> DownloadRequest list" where
  "downloadRequests [] = []"
| "downloadRequests (DownloadRequested r # es) = r # downloadRequests es"
| "downloadRequests (e # es) = downloadRequests es"

fun storeWrites :: "effect list \<Rightarrow> StoredVideo list" where
  "storeWrites [] = []"
| "storeWrites (StoreWritten r # es) = r # storeWrites es"
| "storeWrites (e # es) = storeWrites es"

section \<open>Scenarios\<close>

text \<open>
  A 100-second video with the range \<open>[10, 20]\<close> selected, the preview mounted, and a
  timeline 200 pixels wide that starts at the left border of the viewport.
\<close>

definition long_video_state :: app_state where
  "long_video_state =
     \<lparr>app_url = ''https://example.org/v'', loading = False, error = [],
      videoInfo = Some \<lparr>info_title = ''v'', info_duration = 100, formats = []\<rparr>,
      selectedFormat = [], startTime = 10, endTime = 20, acceptedDisclaimer = False,
      storedVideos = [], previewUrl = ''blob:1'',
      videoRef = Some \<lparr>currentTime = 0\<rparr>,
      timelineRef = Some \<lparr>rect_left = 0, rect_width = 200\<rparr>,
      isDragging = None, app_thumbnails = []\<rparr>"

text \<open>
  The same video and range while no preview is shown (the video element is rendered only
  once a preview URL is set, the timeline as soon as the video information is there).
\<close>

definition no_preview_state :: app_state where
  "no_preview_state = long_video_state\<lparr>previewUrl := [], videoRef := None\<rparr>"

text \<open>
  A 4-second video right after it was loaded into a fresh component: the range still has
  the initial values 0 and 10 of the two state variables. Then three gestures: the start
  handle is dragged to pixel 175 and released; the end handle is pressed and dragged to
  pixel 200; the end handle is dragged on to pixel 100.
\<close>

definition short_video_state :: app_state where
  "short_video_state =
     \<lparr>app_url = ''https://example.org/s'', loading = False, error = [],
      videoInfo = Some \<lparr>info_title = ''s'', info_duration = 4, formats = []\<rparr>,
      selectedFormat = [], startTime = 0, endTime = 10, acceptedDisclaimer = False,
      storedVideos = [], previewUrl = ''blob:2'',
      videoRef = Some \<lparr>currentTime = 0\<rparr>,
      timelineRef = Some \<lparr>rect_left = 0, rect_width = 200\<rparr>,
      isDragging = None, app_thumbnails = []\<rparr>"

definition after_start_drag :: app_state where
  "after_start_drag =
     handleMouseUp (handleMouseMove \<lparr>clientX = 175\<rparr>
       (handleMouseDown \<lparr>clientX = 0\<rparr> DragStart short_video_state))"

definition after_end_drag :: app_state where
  "after_end_drag =
     handleMouseMove \<lparr>clientX = 200\<rparr>
       (handleMouseDown \<lparr>clientX = 200\<rparr> DragEnd after_start_drag)"

definition after_second_end_drag :: app_state where
  "after_second_end_drag = handleMouseMove \<lparr>clientX = 100\<rparr> after_end_drag"

text \<open>
  Two stored records and a clock reading: one record was written 25 hours before the
  reading, the other one hour before it.
\<close>

definition sweep_now :: int where
  "sweep_now = 200000000"

definition old_record :: StoredVideo where
  "old_record =
     \<lparr>url = ''https://example.org/old'', title = ''old'', blob = Blob [1, 2, 3],
      timestamp = 200000000 - 25 * 60 * 60 * 1000, duration = 60,
      thumbnails = Some [Frame 0, Frame 30]\<rparr>"

definition young_record :: StoredVideo where
  "young_record =
     \<lparr>url = ''https://example.org/young'', title = ''young'', blob = Blob [4, 5],
      timestamp = 200000000 - 60 * 60 * 1000, duration = 90,
      thumbnails = None\<rparr>"

definition retitled_record :: StoredVideo where
  "retitled_record = young_record\<lparr>title := ''young, fetched again''\<rparr>"

definition two_record_service :: VideoStorageService where
  "two_record_service = \<lparr>db = False, videos = [old_record, young_record]\<rparr>"

text \<open>
  Three decoders of a one-minute video whose metadata arrive after 100 ms and whose first
  frame arrives 200 ms later: one that completes every seek in 50 ms; one that completes
  two seeks in 100 ms each and never completes the third; and one that needs 4.9 seconds
  for every seek.
\<close>

definition quick_decoder :: decoder where
  "quick_decoder =
     \<lparr>onload = LoadedMetadata 100 60 (LoadedData 200), onseek = (\<lambda>i t. Seeked 50)\<rparr>"

definition stalling_decoder :: decoder where
  "stalling_decoder =
     \<lparr>onload = LoadedMetadata 100 60 (LoadedData 200),
      onseek = (\<lambda>i t. if i < 2 then Seeked 100 else NoSeekedEvent)\<rparr>"

definition slow_decoder :: decoder where
  "slow_decoder =
     \<lparr>onload = LoadedMetadata 100 60 (LoadedData 200), onseek = (\<lambda>i t. Seeked 4900)\<rparr>"

text \<open>
  A decoder of the same video that completes every seek in 2 seconds, and a decoder of a
  video of duration 0 that completes every seek in 50 ms.
\<close>

definition seek_in_two_seconds :: "nat \<Rightarrow> real \<Rightarrow> seek_outcome" where
  "seek_in_two_seconds i t = Seeked 2000"

definition two_second_decoder :: decoder where
  "two_second_decoder =
     \<lparr>onload = LoadedMetadata 100 60 (LoadedData 200), onseek = seek_in_two_seconds\<rparr>"

definition zero_length_decoder :: decoder where
  "zero_length_decoder =
     \<lparr>onload = LoadedMetadata 100 0 (LoadedData 200), onseek = (\<lambda>i t. Seeked 50)\<rparr>"

text \<open>
  The listing of the end-to-end scenario: format \<open>a\<close> without audio, then format \<open>b\<close> with
  audio. Three backends: one that serves the listing, serves format \<open>b\<close> and whose blob
  decodes quickly; one whose listing has no format with audio; one whose blob stalls the
  decoder. The user has typed a URL that is not in the store.
\<close>

definition format_a :: VideoFormat where
  "format_a = \<lparr>format_id = ''a'', quality = ''1080p'', ext = ''mp4'',
     filesize = FilesizeNumber 1000, resolution = ''1920x1080'', has_audio = False,
     format_url = ''https://cdn.example.org/a''\<rparr>"

definition format_b :: VideoFormat where
  "format_b = \<lparr>format_id = ''b'', quality = ''360p'', ext = ''mp4'',
     filesize = FilesizeString ''unknown'', resolution = ''640x360'', has_audio = True,
     format_url = ''https://cdn.example.org/b''\<rparr>"

definition listing :: VideoInfo where
  "listing = \<lparr>info_title = ''new'', info_duration = 60, formats = [format_a, format_b]\<rparr>"

definition backend_ok :: environment where
  "backend_ok =
     \<lparr>post_formats = (\<lambda>u. Ok listing),
      post_download = (\<lambda>req. if req_format_id req = ''b'' then Ok (Blob [7, 8]) else NotOk),
      decode = (\<lambda>b. quick_decoder),
      createObjectURL = (\<lambda>b. ''blob:preview''),
      date_now = 200000000\<rparr>"

definition backend_no_audio :: environment where
  "backend_no_audio = backend_ok\<lparr>post_formats := (\<lambda>u. Ok (listing\<lparr>formats := [format_a]\<rparr>))\<rparr>"

definition backend_stalling :: environment where
  "backend_stalling = backend_ok\<lparr>decode := (\<lambda>b. stalling_decoder)\<rparr>"

definition submit_state :: app_state where
  "submit_state = long_video_state\<lparr>app_url := ''https://example.org/new''\<rparr>"

definition new_record :: StoredVideo where
  "new_record =
     \<lparr>url = ''https://example.org/new'', title = ''new'', blob = Blob [7, 8],
      timestamp = 200000000, duration = 60,
      thumbnails = Some (map (\<lambda>i. Frame (3 * real i)) [0..<20])\<rparr>"

section \<open>Properties of the timeline handlers\<close>

text \<open>
  C1 (as amended). Take a click on the timeline at a time \<open>t\<close> with \<open>0 \<le> t \<le> duration\<close>.
  While no preview video element is mounted the click changes nothing. While one is
  mounted, the click sets the start edge when \<open>t\<close> is strictly nearer to the start than to
  the end, and leaves the end where it was; in every other case, so also when the two
  distances are equal, it sets the end edge and leaves the start where it was. The edge
  that is set is clamped (start into \<open>[0, end - 1]\<close>, end into \<open>[start + 1, duration]\<close>), and
  playback moves to \<open>t\<close>.
\<close>

theorem timeline_click_nearer_edge:
  assumes "timelineRef s = Some rect" and "videoInfo s = Some info"
    and "0 < rect_width rect"
    and "0 \<le> clickTime e rect info" and "clickTime e rect info \<le> info_duration info"
  shows "(videoRef s = None \<longrightarrow> handleTimelineClick e s = s)
       \<and> (\<forall>video. videoRef s = Some video \<longrightarrow>
            (\<bar>clickTime e rect info - startTime s\<bar> < \<bar>clickTime e rect info - endTime s\<bar> \<longrightarrow>
               startTime (handleTimelineClick e s)
                 = max 0 (min (clickTime e rect info) (endTime s - 1))
             \<and> endTime (handleTimelineClick e s) = endTime s)
          \<and> (\<bar>clickTime e rect info - endTime s\<bar> \<le> \<bar>clickTime e rect info - startTime s\<bar> \<longrightarrow>
               endTime (handleTimelineClick e s)
                 = min (info_duration info) (max (clickTime e rect info) (startTime s + 1))
             \<and> startTime (handleTimelineClick e s) = startTime s)
          \<and> videoRef (handleTimelineClick e s)
               = Some (video\<lparr>currentTime := clickTime e rect info\<rparr>))"
  using assms by (simp add: handleTimelineClick_def Let_def)

text \<open>
  The example of the specification, with the preview mounted: a click at 30 percent of
  the 100-second video with the range \<open>[10, 20]\<close> moves the end to 30. A click at 12 percent
  moves the start to 12. Without the preview the click at 30 percent is ignored.
\<close>

theorem timeline_click_nearer_edge_witness:
  "clickTime \<lparr>clientX = 60\<rparr> \<lparr>rect_left = 0, rect_width = 200\<rparr>
      \<lparr>info_title = ''v'', info_duration = 100, formats = []\<rparr> = 30
   \<and> startTime (handleTimelineClick \<lparr>clientX = 60\<rparr> long_video_state) = 10
   \<and> endTime (handleTimelineClick \<lparr>clientX = 60\<rparr> long_video_state) = 30
   \<and> clickTime \<lparr>clientX = 24\<rparr> \<lparr>rect_left = 0, rect_width = 200\<rparr>
      \<lparr>info_title = ''v'', info_duration = 100, formats = []\<rparr> = 12
   \<and> startTime (handleTimelineClick \<lparr>clientX = 24\<rparr> long_video_state) = 12
   \<and> endTime (handleTimelineClick \<lparr>clientX = 24\<rparr> long_video_state) = 20
   \<and> videoRef no_preview_state = None
   \<and> handleTimelineClick \<lparr>clientX = 60\<rparr> no_preview_state = no_preview_state"
  using timeline_click_nearer_edge
    [of long_video_state "\<lparr>rect_left = 0, rect_width = 200\<rparr>"
        "\<lparr>info_title = ''v'', info_duration = 100, formats = []\<rparr>" "\<lparr>clientX = 60\<rparr>"]
    timeline_click_nearer_edge
    [of long_video_state "\<lparr>rect_left = 0, rect_width = 200\<rparr>"
        "\<lparr>info_title = ''v'', info_duration = 100, formats = []\<rparr>" "\<lparr>clientX = 24\<rparr>"]
    timeline_click_nearer_edge
    [of no_preview_state "\<lparr>rect_left = 0, rect_width = 200\<rparr>"
        "\<lparr>info_title = ''v'', info_duration = 100, formats = []\<rparr>" "\<lparr>clientX = 60\<rparr>"]
  by (simp add: no_preview_state_def long_video_state_def clickTime_def)

text \<open>
  C1 as stated fails in two places. On a tie: a click at 15 seconds is 5 seconds from
  either edge of \<open>[10, 20]\<close>, and the handler moves the end to 15 and leaves the start at
  10. And without a preview: the timeline is shown, the range is \<open>[10, 20]\<close>, and the click
  at 30 seconds, which is nearer to the end, leaves the end at 20.
\<close>

theorem timeline_click_tie_moves_end:
  "clickTime \<lparr>clientX = 30\<rparr> \<lparr>rect_left = 0, rect_width = 200\<rparr>
      \<lparr>info_title = ''v'', info_duration = 100, formats = []\<rparr> = 15
   \<and> \<bar>15 - startTime long_video_state\<bar> = \<bar>15 - endTime long_video_state\<bar>
   \<and> startTime (handleTimelineClick \<lparr>clientX = 30\<rparr> long_video_state)
        = startTime long_video_state
   \<and> endTime (handleTimelineClick \<lparr>clientX = 30\<rparr> long_video_state) = 15
   \<and> endTime long_video_state = 20
   \<and> timelineRef no_preview_state = Some \<lparr>rect_left = 0, rect_width = 200\<rparr>
   \<and> startTime no_preview_state = 10
   \<and> endTime no_preview_state = 20
   \<and> endTime (handleTimelineClick \<lparr>clientX = 60\<rparr> no_preview_state) = 20"
  by (simp add: no_preview_state_def long_video_state_def clickTime_def
        handleTimelineClick_def)

text \<open>
  C2. The claim does not hold of the handlers. The range starts at \<open>[0, 10]\<close> whatever the
  duration of the video, and a handler clamps only the edge it sets against the other
  edge as it finds it. On the 4-second video the first drag of the start handle gives
  \<open>[3.5, 10]\<close>, with the end beyond the duration. The drag of the end handle then gives
  \<open>[3.5, 4]\<close>: a range with \<open>0 \<le> start < end \<le> duration\<close>, but a span of half a second. From
  that range the next drag of the end handle gives \<open>[3.5, 4]\<close> again: the span after the
  mutation is below one second. Every number of this run is a multiple of 1/8 below 16,
  which the doubles of the code represent exactly.
\<close>

theorem short_video_span_below_one:
  "startTime after_start_drag = 7 / 2 \<and> endTime after_start_drag = 10
   \<and> \<not> range_ok 4 after_start_drag
   \<and> startTime after_end_drag = 7 / 2 \<and> endTime after_end_drag = 4
   \<and> 0 \<le> startTime after_end_drag \<and> startTime after_end_drag < endTime after_end_drag
   \<and> endTime after_end_drag \<le> 4
   \<and> startTime after_second_end_drag = 7 / 2 \<and> endTime after_second_end_drag = 4
   \<and> endTime after_second_end_drag - startTime after_second_end_drag < 1
   \<and> \<not> range_ok 4 after_second_end_drag"
  by (simp add: after_second_end_drag_def after_end_drag_def after_start_drag_def
        short_video_state_def handleMouseDown_def handleMouseUp_def handleMouseMove_def
        moveTime_def setCurrentTime_def range_ok_def Let_def)

section \<open>Properties of the storage service\<close>

lemma videos_deleteVideo:
  "videos (deleteVideo k st) = filter (\<lambda>w. url w \<noteq> k) (videos st)"
  by (simp add: deleteVideo_def initialize_def idb_delete_def Let_def)

lemma videos_storeVideo:
  "videos (storeVideo v st) = v # filter (\<lambda>w. url w \<noteq> url v) (videos st)"
  by (simp add: storeVideo_def initialize_def idb_put_def Let_def)

lemma getVideo_videos:
  "fst (getVideo k st) = find (\<lambda>w. url w = k) (videos st)"
  "videos (snd (getVideo k st)) = videos st"
  by (simp_all add: getVideo_def initialize_def idb_get_def Let_def)

lemma getAllVideos_videos:
  "fst (getAllVideos st) = videos st"
  "videos (snd (getAllVideos st)) = videos st"
  by (simp_all add: getAllVideos_def initialize_def idb_getAll_def Let_def)

text \<open>
  Keys are unique in an object store: no two records of the list share a \<open>url\<close>. Writing
  and deleting keep it so.
\<close>

lemma distinct_url_storeVideo:
  "distinct (map url (videos st)) \<Longrightarrow> distinct (map url (videos (storeVideo v st)))"
  by (auto simp: videos_storeVideo distinct_map_filter)

lemma distinct_url_deleteVideo:
  "distinct (map url (videos st)) \<Longrightarrow> distinct (map url (videos (deleteVideo k st)))"
  by (auto simp: videos_deleteVideo distinct_map_filter)

lemma distinct_url_eq:
  "distinct (map url xs) \<Longrightarrow> v \<in> set xs \<Longrightarrow> w \<in> set xs \<Longrightarrow> url v = url w \<Longrightarrow> v = w"
  by (meson distinct_map inj_on_def)

lemma find_url_distinct:
  "distinct (map url xs) \<Longrightarrow> v \<in> set xs \<Longrightarrow> find (\<lambda>w. url w = url v) xs = Some v"
  by (induction xs) (auto simp: image_iff)

lemma find_url_None:
  "find (\<lambda>w. url w = k) xs = None \<longleftrightarrow> k \<notin> url ` set xs"
  by (induction xs) auto

text \<open>
  The loop of \<open>cleanup\<close> removes from the store every record that shares its key with a
  record of the list it walks that is too old.
\<close>

lemma videos_cleanupLoop:
  "videos (cleanupLoop now vs st)
     = filter (\<lambda>w. \<forall>v \<in> set vs. now - timestamp v > dayInMs \<longrightarrow> url w \<noteq> url v) (videos st)"
proof (induction vs arbitrary: st)
  case Nil
  then show ?case by simp
next
  case (Cons v vs)
  show ?case
    by (simp add: Cons.IH videos_deleteVideo conj_commute cong: filter_cong)
qed

lemma videos_cleanup_by_key:
  "videos (cleanup now st)
     = filter (\<lambda>w. \<forall>v \<in> set (videos st). now - timestamp v > dayInMs \<longrightarrow> url w \<noteq> url v)
         (videos st)"
  by (simp add: cleanup_def getAllVideos_def initialize_def idb_getAll_def Let_def
        videos_cleanupLoop)

lemma videos_cleanup:
  assumes "distinct (map url (videos st))"
  shows "videos (cleanup now st) = filter (\<lambda>v. \<not> timestamp v < now - dayInMs) (videos st)"
  unfolding videos_cleanup_by_key
proof (rule filter_cong[OF refl])
  fix w assume w: "w \<in> set (videos st)"
  show "(\<forall>v\<in>set (videos st). dayInMs < now - timestamp v \<longrightarrow> url w \<noteq> url v)
          = (\<not> timestamp w < now - dayInMs)"
  proof
    assume "\<forall>v\<in>set (videos st). dayInMs < now - timestamp v \<longrightarrow> url w \<noteq> url v"
    with w have "\<not> dayInMs < now - timestamp w" by blast
    then show "\<not> timestamp w < now - dayInMs" by linarith
  next
    assume young: "\<not> timestamp w < now - dayInMs"
    show "\<forall>v\<in>set (videos st). dayInMs < now - timestamp v \<longrightarrow> url w \<noteq> url v"
    proof (intro ballI impI)
      fix v assume v: "v \<in> set (videos st)" "dayInMs < now - timestamp v"
      show "url w \<noteq> url v"
      proof
        assume "url w = url v"
        with distinct_url_eq[OF assms w v(1)] have "w = v" by simp
        with young v(2) show False by simp
      qed
    qed
  qed
qed

text \<open>
  C6. In a store with unique keys, \<open>cleanup\<close> leaves exactly the records whose timestamp is
  not older than the clock reading minus 24 hours, in place and unchanged. So a record
  written 25 hours before the reading is no longer found, a record written one hour before
  it is still found, and the empty store stays empty.
\<close>

theorem cleanup_deletes_exactly_expired:
  assumes "distinct (map url (videos st))"
  shows "videos (cleanup now st) = filter (\<lambda>v. \<not> timestamp v < now - dayInMs) (videos st)
       \<and> (\<forall>v \<in> set (videos st). timestamp v = now - 25 * 60 * 60 * 1000 \<longrightarrow>
             fst (getVideo (url v) (cleanup now st)) = None)
       \<and> (\<forall>v \<in> set (videos st). timestamp v = now - 60 * 60 * 1000 \<longrightarrow>
             fst (getVideo (url v) (cleanup now st)) = Some v)
       \<and> (videos st = [] \<longrightarrow> videos (cleanup now st) = [])"
proof (intro conjI ballI impI)
  show eq: "videos (cleanup now st) = filter (\<lambda>v. \<not> timestamp v < now - dayInMs) (videos st)"
    by (rule videos_cleanup[OF assms])
  have dist: "distinct (map url (videos (cleanup now st)))"
    unfolding eq using assms by (simp add: distinct_map_filter)
  show "fst (getVideo (url v) (cleanup now st)) = None"
    if "v \<in> set (videos st)" and "timestamp v = now - 25 * 60 * 60 * 1000" for v
  proof -
    have "url v \<notin> url ` set (videos (cleanup now st))"
    proof
      assume "url v \<in> url ` set (videos (cleanup now st))"
      then obtain w where w: "w \<in> set (videos (cleanup now st))" and same: "url w = url v"
        by auto
      from w have "w \<in> set (videos st)" and keep: "\<not> timestamp w < now - dayInMs"
        by (simp_all add: eq)
      with distinct_url_eq[OF assms _ that(1) same] have "w = v" by simp
      with keep that(2) show False by (simp add: dayInMs_def)
    qed
    then show ?thesis
      by (simp add: getVideo_videos(1) find_url_None)
  qed
  show "fst (getVideo (url v) (cleanup now st)) = Some v"
    if "v \<in> set (videos st)" and "timestamp v = now - 60 * 60 * 1000" for v
  proof -
    from that have "v \<in> set (videos (cleanup now st))"
      by (simp add: eq dayInMs_def)
    then show ?thesis
      by (simp add: getVideo_videos(1) find_url_distinct[OF dist])
  qed
  show "videos (cleanup now st) = []" if "videos st = []"
    using that by (simp add: videos_cleanup_by_key)
qed

theorem cleanup_deletes_exactly_expired_witness:
  "distinct (map url (videos two_record_service))
   \<and> timestamp old_record = sweep_now - 25 * 60 * 60 * 1000
   \<and> timestamp young_record = sweep_now - 60 * 60 * 1000
   \<and> videos (cleanup sweep_now two_record_service) = [young_record]
   \<and> fst (getVideo (url old_record) (cleanup sweep_now two_record_service)) = None
   \<and> fst (getVideo (url young_record) (cleanup sweep_now two_record_service))
        = Some young_record
   \<and> videos (cleanup sweep_now \<lparr>db = False, videos = []\<rparr>) = []"
  using cleanup_deletes_exactly_expired [of two_record_service sweep_now]
    cleanup_deletes_exactly_expired [of "\<lparr>db = False, videos = []\<rparr>" sweep_now]
  by (simp add: two_record_service_def old_record_def young_record_def sweep_now_def
        dayInMs_def)

text \<open>
  C9. A record that was stored is returned by a lookup of its key, equal in all fields.
  Storing a second record under the same key is no error; the lookup then returns the
  second record, and the store holds no other record under that key.
\<close>

theorem store_then_get_roundtrip:
  "fst (getVideo (url r) (storeVideo r st)) = Some r
   \<and> (url r2 = url r \<longrightarrow>
        fst (getVideo (url r) (storeVideo r2 (storeVideo r st))) = Some r2
        \<and> filter (\<lambda>w. url w = url r) (videos (storeVideo r2 (storeVideo r st))) = [r2])"
  by (auto simp: getVideo_videos(1) videos_storeVideo filter_empty_conv)

theorem store_then_get_roundtrip_witness:
  "url retitled_record = url young_record
   \<and> retitled_record \<noteq> young_record
   \<and> fst (getVideo (url young_record) (storeVideo young_record two_record_service))
        = Some young_record
   \<and> fst (getVideo (url young_record)
        (storeVideo retitled_record (storeVideo young_record two_record_service)))
        = Some retitled_record"
  using store_then_get_roundtrip [of young_record two_record_service retitled_record]
  by (simp add: retitled_record_def young_record_def)

section \<open>Properties of the thumbnail sampler\<close>

subsection \<open>One round of the loop\<close>

lemma sampleLoop_step:
  "i < N \<Longrightarrow> sampleLoop dec D N i now thumbs =
     (case onseek dec i (sampleTime D N i) of
        Seeked d \<Rightarrow>
          if generationTimeoutMs \<le> min (now + d) (now + seekTimeoutMs)
          then generationTimedOut [(SeekTimer i, now + seekTimeoutMs)]
          else if now + seekTimeoutMs \<le> now + d then rejected SeekTimeout (now + seekTimeoutMs)
          else sampleLoop dec D N (i + 1) (now + d) (thumbs @ [Frame (sampleTime D N i)])
      | SeekedCaptureFails d m \<Rightarrow>
          if generationTimeoutMs \<le> min (now + d) (now + seekTimeoutMs)
          then generationTimedOut [(SeekTimer i, now + seekTimeoutMs)]
          else if now + seekTimeoutMs \<le> now + d then rejected SeekTimeout (now + seekTimeoutMs)
          else rejected (CaptureError m) (now + d)
      | NoSeekedEvent \<Rightarrow>
          if generationTimeoutMs \<le> now + seekTimeoutMs
          then generationTimedOut [(SeekTimer i, now + seekTimeoutMs)]
          else rejected SeekTimeout (now + seekTimeoutMs))"
  by (subst sampleLoop.simps) (simp add: Let_def)

lemma sampleLoop_end:
  "\<not> i < N \<Longrightarrow> sampleLoop dec D N i now thumbs = resolved thumbs now"
  by (subst sampleLoop.simps) simp

lemma sampleLoop_seeked:
  assumes "i < N" and "onseek dec i (sampleTime D N i) = Seeked d"
    and "d < seekTimeoutMs" and "now + d < generationTimeoutMs"
  shows "sampleLoop dec D N i now thumbs
       = sampleLoop dec D N (Suc i) (now + d) (thumbs @ [Frame (sampleTime D N i)])"
  using assms(2-4) by (simp add: sampleLoop_step[OF assms(1)])

text \<open>A round that does not capture a frame in time ends the call with an error.\<close>

lemma sampleLoop_stops:
  assumes "i < N"
    and "\<not> (\<exists>d. onseek dec i (sampleTime D N i) = Seeked d
               \<and> d < seekTimeoutMs \<and> now + d < generationTimeoutMs)"
  shows "sampleLoop dec D N i now thumbs = generationTimedOut [(SeekTimer i, now + seekTimeoutMs)]
       \<or> (sampleLoop dec D N i now thumbs = rejected SeekTimeout (now + seekTimeoutMs)
            \<and> now + seekTimeoutMs < generationTimeoutMs)
       \<or> (\<exists>m d. sampleLoop dec D N i now thumbs = rejected (CaptureError m) (now + d)
            \<and> now + d < generationTimeoutMs)"
proof (cases "onseek dec i (sampleTime D N i)")
  case (Seeked d)
  with assms(2) have "\<not> d < seekTimeoutMs \<or> \<not> now + d < generationTimeoutMs" by simp
  with Seeked show ?thesis
    by (auto simp add: sampleLoop_step[OF assms(1)])
next
  case (SeekedCaptureFails d m)
  show ?thesis
  proof (cases "generationTimeoutMs \<le> min (now + d) (now + seekTimeoutMs)")
    case True
    with SeekedCaptureFails show ?thesis
      by (simp add: sampleLoop_step[OF assms(1)])
  next
    case running: False
    show ?thesis
    proof (cases "now + seekTimeoutMs \<le> now + d")
      case True
      with running SeekedCaptureFails show ?thesis
        by (simp add: sampleLoop_step[OF assms(1)])
    next
      case False
      with running SeekedCaptureFails
      have "sampleLoop dec D N i now thumbs = rejected (CaptureError m) (now + d)"
        and "now + d < generationTimeoutMs"
        by (simp_all add: sampleLoop_step[OF assms(1)])
      then show ?thesis by blast
    qed
  qed
next
  case NoSeekedEvent
  then show ?thesis
    by (auto simp add: sampleLoop_step[OF assms(1)])
qed

subsection \<open>The loop\<close>

text \<open>
  While every seek of a stretch of rounds completes within its 5 seconds and the clock
  stays below 30 seconds, the loop captures one frame per round, in order.
\<close>

lemma sampleLoop_prefix:
  assumes "\<forall>j. i \<le> j \<and> j < k \<longrightarrow> onseek dec j (sampleTime D N j) = Seeked (lat j) \<and> lat j < seekTimeoutMs"
    and "now + (\<Sum>j = i..<k. lat j) < generationTimeoutMs"
    and "i \<le> k" and "k \<le> N"
  shows "sampleLoop dec D N i now thumbs
       = sampleLoop dec D N k (now + (\<Sum>j = i..<k. lat j))
           (thumbs @ map (\<lambda>j. Frame (sampleTime D N j)) [i..<k])"
  using assms
proof (induction "k - i" arbitrary: i now thumbs)
  case 0
  then show ?case by simp
next
  case (Suc m)
  then have ik: "i < k" and iN: "i < N" by simp_all
  from Suc.prems(1) ik have here: "onseek dec i (sampleTime D N i) = Seeked (lat i)" "lat i < seekTimeoutMs"
    by simp_all
  have split_sum: "(\<Sum>j = i..<k. lat j) = lat i + (\<Sum>j = Suc i..<k. lat j)"
    using ik by (simp add: sum.atLeast_Suc_lessThan)
  have split_list: "[i..<k] = i # [Suc i..<k]"
    using ik by (simp add: upt_conv_Cons)
  have in_time: "now + lat i < generationTimeoutMs"
    using Suc.prems(2) split_sum by simp
  have step: "sampleLoop dec D N i now thumbs
      = sampleLoop dec D N (Suc i) (now + lat i) (thumbs @ [Frame (sampleTime D N i)])"
    using iN here in_time
    by (subst sampleLoop.simps) (simp add: Let_def)
  have rest: "sampleLoop dec D N (Suc i) (now + lat i) (thumbs @ [Frame (sampleTime D N i)])
      = sampleLoop dec D N k (now + lat i + (\<Sum>j = Suc i..<k. lat j))
          ((thumbs @ [Frame (sampleTime D N i)]) @ map (\<lambda>j. Frame (sampleTime D N j)) [Suc i..<k])"
  proof (rule Suc.hyps(1))
    show "m = k - Suc i" using Suc.hyps(2) by simp
    show "\<forall>j. Suc i \<le> j \<and> j < k \<longrightarrow> onseek dec j (sampleTime D N j) = Seeked (lat j) \<and> lat j < seekTimeoutMs"
      using Suc.prems(1) by simp
    show "now + lat i + (\<Sum>j = Suc i..<k. lat j) < generationTimeoutMs"
      using Suc.prems(2) split_sum by simp
    show "Suc i \<le> k" using ik by simp
    show "k \<le> N" by fact
  qed
  show ?case
    unfolding step rest split_sum split_list by (simp add: add.assoc)
qed

lemma settles_simps:
  "settles_in_time (generationTimedOut ts)"
  "err \<noteq> GenerationTimeout \<Longrightarrow> settles_in_time (rejected err t) \<longleftrightarrow> t < generationTimeoutMs"
  "settles_in_time (resolved ths t) \<longleftrightarrow> t < generationTimeoutMs"
  by (auto simp: settles_in_time_def generationTimedOut_def rejected_def resolved_def)

lemma sampleLoop_deadline:
  "now < generationTimeoutMs \<Longrightarrow> settles_in_time (sampleLoop dec D N i now thumbs)"
proof (induction "N - i" arbitrary: i now thumbs)
  case 0
  then show ?case by (simp add: sampleLoop_end settles_simps)
next
  case (Suc m)
  then have iN: "i < N" by simp
  show ?case
  proof (cases "\<exists>d. onseek dec i (sampleTime D N i) = Seeked d
               \<and> d < seekTimeoutMs \<and> now + d < generationTimeoutMs")
    case True
    then obtain d where d: "onseek dec i (sampleTime D N i) = Seeked d"
      "d < seekTimeoutMs" "now + d < generationTimeoutMs" by blast
    have "m = N - Suc i" using Suc.hyps(2) by simp
    from Suc.hyps(1)[OF this d(3)] show ?thesis
      by (simp add: sampleLoop_seeked[OF iN d])
  next
    case False
    from sampleLoop_stops[OF iN False, of thumbs] show ?thesis
      by (auto simp: settles_simps)
  qed
qed

lemma sampleLoop_Inr:
  "settled (sampleLoop dec D N i now thumbs) = Inr ths \<Longrightarrow>
     ths = thumbs @ map (\<lambda>j. Frame (sampleTime D N j)) [i..<N]"
proof (induction "N - i" arbitrary: i now thumbs)
  case 0
  then show ?case by (simp add: sampleLoop_end resolved_def)
next
  case (Suc m)
  then have iN: "i < N" by simp
  then have split_list: "[i..<N] = i # [Suc i..<N]" by (simp add: upt_conv_Cons)
  have m: "m = N - Suc i" using Suc.hyps(2) by simp
  show ?case
  proof (cases "\<exists>d. onseek dec i (sampleTime D N i) = Seeked d
               \<and> d < seekTimeoutMs \<and> now + d < generationTimeoutMs")
    case True
    then obtain d where d: "onseek dec i (sampleTime D N i) = Seeked d"
      "d < seekTimeoutMs" "now + d < generationTimeoutMs" by blast
    from Suc.prems have "settled (sampleLoop dec D N (Suc i) (now + d)
        (thumbs @ [Frame (sampleTime D N i)])) = Inr ths"
      by (simp add: sampleLoop_seeked[OF iN d])
    from Suc.hyps(1)[OF m this] show ?thesis
      by (simp add: split_list)
  next
    case False
    from sampleLoop_stops[OF iN False, of thumbs] Suc.prems show ?thesis
      by (auto simp: generationTimedOut_def rejected_def)
  qed
qed


subsection \<open>The whole call\<close>

lemma generateThumbnails_loaded:
  assumes "onload dec = LoadedMetadata t D (LoadedData d)" and "t + d < generationTimeoutMs"
  shows "generateThumbnails dec N = sampleLoop dec D N 0 (t + d) []"
  using assms by (simp add: generateThumbnails_def)

lemma generateThumbnails_prefix:
  assumes "onload dec = LoadedMetadata t D (LoadedData d)"
    and "k \<le> N"
    and "\<forall>j<k. onseek dec j (D * real j / real N) = Seeked (lat j) \<and> lat j < seekTimeoutMs"
    and "t + d + (\<Sum>j<k. lat j) < generationTimeoutMs"
  shows "generateThumbnails dec N
       = sampleLoop dec D N k (t + d + (\<Sum>j<k. lat j))
           (map (\<lambda>j. Frame (D * real j / real N)) [0..<k])"
proof -
  have "t + d < generationTimeoutMs" using assms(4) by simp
  then have "generateThumbnails dec N = sampleLoop dec D N 0 (t + d) []"
    by (rule generateThumbnails_loaded[OF assms(1)])
  also have "\<dots> = sampleLoop dec D N k (t + d + (\<Sum>j = 0..<k. lat j))
           ([] @ map (\<lambda>j. Frame (D * real j / real N)) [0..<k])"
    by (rule sampleLoop_prefix) (use assms in \<open>simp_all add: atLeast0LessThan\<close>)
  finally show ?thesis by (simp add: atLeast0LessThan)
qed

lemma generateThumbnails_settles:
  "settles_in_time (generateThumbnails dec N)"
  by (auto simp: generateThumbnails_def settles_simps sampleLoop_deadline
      split: load_outcome.splits data_outcome.splits)

lemma generateThumbnails_Inr:
  "settled (generateThumbnails dec N) = Inr ths \<Longrightarrow> length ths = N"
  by (auto simp: generateThumbnails_def generationTimedOut_def rejected_def
      split: load_outcome.splits data_outcome.splits if_splits dest!: sampleLoop_Inr)

text \<open>
  C3 (as amended). When the video loads, each of the \<open>N\<close> seeks completes within its 5
  seconds, and the whole call, loading included, stays under 30 seconds, the call
  resolves with exactly \<open>N\<close> images, the \<open>i\<close>-th of which is the frame at \<open>D * i / N\<close>. For a
  video of positive duration and at least one sample the last sample position,
  \<open>D * (N - 1) / N\<close>, is strictly before \<open>D\<close>.
\<close>

theorem thumbnails_evenly_spaced:
  assumes "onload dec = LoadedMetadata t D (LoadedData d)"
    and "\<forall>i<N. onseek dec i (D * real i / real N) = Seeked (lat i) \<and> lat i < seekTimeoutMs"
    and "t + d + (\<Sum>i<N. lat i) < generationTimeoutMs"
  shows "(\<exists>ths. settled (generateThumbnails dec N) = Inr ths \<and> length ths = N
            \<and> (\<forall>i<N. ths ! i = Frame (D * real i / real N)))
       \<and> (0 < N \<and> 0 < D \<longrightarrow> D * real (N - 1) / real N < D)"
proof
  have "generateThumbnails dec N
      = resolved (map (\<lambda>j. Frame (D * real j / real N)) [0..<N]) (t + d + (\<Sum>j<N. lat j))"
    by (simp add: generateThumbnails_prefix[OF assms(1) le_refl assms(2,3)] sampleLoop_end)
  then show "\<exists>ths. settled (generateThumbnails dec N) = Inr ths \<and> length ths = N
            \<and> (\<forall>i<N. ths ! i = Frame (D * real i / real N))"
    by (simp add: resolved_def)
  show "0 < N \<and> 0 < D \<longrightarrow> D * real (N - 1) / real N < D"
    by (auto simp: divide_less_eq)
qed

text \<open>The default of 20 samples on the one-minute video: frames at 0, 3, ..., 57 seconds.\<close>

theorem thumbnails_evenly_spaced_witness:
  "onload quick_decoder = LoadedMetadata 100 60 (LoadedData 200)
   \<and> 100 + 200 + (\<Sum>i<defaultNumThumbnails. 50) < generationTimeoutMs
   \<and> settled (generateThumbnails quick_decoder defaultNumThumbnails)
        = Inr (map (\<lambda>i. Frame (3 * real i)) [0..<20])
   \<and> 60 * real (defaultNumThumbnails - 1) / real defaultNumThumbnails < (60::real)"
proof -
  from thumbnails_evenly_spaced [of quick_decoder 100 60 200 defaultNumThumbnails "\<lambda>i. 50"]
  obtain ths where ths: "settled (generateThumbnails quick_decoder defaultNumThumbnails) = Inr ths"
      "length ths = 20" "\<forall>i<20. ths ! i = Frame (3 * real i)"
    and last: "60 * real (defaultNumThumbnails - 1) / real defaultNumThumbnails < (60::real)"
    by (auto simp add: quick_decoder_def defaultNumThumbnails_def seekTimeoutMs_def
          generationTimeoutMs_def)
  from ths(2,3) have "ths = map (\<lambda>i. Frame (3 * real i)) [0..<20]"
    by (intro nth_equalityI) simp_all
  with ths(1) last show ?thesis
    by (simp add: quick_decoder_def defaultNumThumbnails_def generationTimeoutMs_def)
qed

text \<open>
  C3 as stated fails in two places. Seeks that complete in time do not suffice: with 20
  samples and every seek done after 2 seconds, well within its 5 seconds, fourteen frames
  are captured by 28.3 seconds and the whole-operation timer ends the call during the
  fifteenth seek; the caller gets \<open>GenerationTimeout\<close> and no image. And on a video of
  duration 0 the call returns its images, but the last sample position is 0, the
  duration itself, not a position before it.
\<close>

theorem seeks_in_time_yet_generation_timeout:
  "onseek two_second_decoder = seek_in_two_seconds
   \<and> seek_in_two_seconds 14 42 = Seeked 2000
   \<and> (2000::nat) < seekTimeoutMs
   \<and> settled (generateThumbnails two_second_decoder defaultNumThumbnails)
        = Inl GenerationTimeout
   \<and> settled (generateThumbnails zero_length_decoder 2) = Inr [Frame 0, Frame 0]
   \<and> \<not> (0 * real (2 - 1) / real 2 < (0::real))"
proof -
  have "generateThumbnails two_second_decoder 20
      = sampleLoop two_second_decoder 60 20 14 (100 + 200 + (\<Sum>j<(14::nat). 2000))
          (map (\<lambda>j. Frame (60 * real j / real 20)) [0..<14])"
    by (rule generateThumbnails_prefix [where lat = "\<lambda>j. 2000"])
      (simp_all add: two_second_decoder_def seek_in_two_seconds_def seekTimeoutMs_def
         generationTimeoutMs_def)
  then have cut_off: "settled (generateThumbnails two_second_decoder defaultNumThumbnails)
      = Inl GenerationTimeout"
    by (simp add: sampleLoop_step two_second_decoder_def seek_in_two_seconds_def
          generationTimedOut_def defaultNumThumbnails_def seekTimeoutMs_def
          generationTimeoutMs_def)
  have "generateThumbnails zero_length_decoder 2
      = sampleLoop zero_length_decoder 0 2 2 (100 + 200 + (\<Sum>j<(2::nat). 50))
          (map (\<lambda>j. Frame (0 * real j / real 2)) [0..<2])"
    by (rule generateThumbnails_prefix [where lat = "\<lambda>j. 50"])
      (simp_all add: zero_length_decoder_def seekTimeoutMs_def generationTimeoutMs_def)
  then have still: "settled (generateThumbnails zero_length_decoder 2) = Inr [Frame 0, Frame 0]"
    by (simp add: sampleLoop_end resolved_def upt_rec)
  from cut_off still show ?thesis
    by (simp add: two_second_decoder_def seek_in_two_seconds_def seekTimeoutMs_def)
qed

text \<open>
  C4. Let the video load and the first \<open>k\<close> seeks each complete within 5 seconds, all before
  the 30-second mark. If seek \<open>k\<close> does not complete within 5 seconds of its start, and those
  5 seconds end before the 30-second mark, the call fails with \<open>SeekTimeout\<close>. If instead
  the 30-second mark comes before seek \<open>k\<close> completes and before its 5 seconds end, the call
  fails with \<open>GenerationTimeout\<close>, whatever the number \<open>k\<close> of frames captured so far. In
  general a call never runs beyond the 30-second mark, it reaches the mark exactly when it
  fails with \<open>GenerationTimeout\<close>, and a call that returns a list returns all \<open>N\<close>
  thumbnails: a failure never hands out a shorter list.
\<close>

theorem sampling_timeouts:
  assumes "onload dec = LoadedMetadata t D (LoadedData d)"
    and "k < N"
    and "\<forall>j<k. onseek dec j (D * real j / real N) = Seeked (lat j) \<and> lat j < seekTimeoutMs"
    and "t + d + (\<Sum>j<k. lat j) < generationTimeoutMs"
  shows "((\<forall>L. seekedAfter (onseek dec k (D * real k / real N)) = Some L \<longrightarrow> seekTimeoutMs \<le> L)
          \<and> t + d + (\<Sum>j<k. lat j) + seekTimeoutMs < generationTimeoutMs
          \<longrightarrow> settled (generateThumbnails dec N) = Inl SeekTimeout)
       \<and> ((\<forall>L. seekedAfter (onseek dec k (D * real k / real N)) = Some L
                 \<longrightarrow> generationTimeoutMs \<le> t + d + (\<Sum>j<k. lat j) + L)
          \<and> generationTimeoutMs \<le> t + d + (\<Sum>j<k. lat j) + seekTimeoutMs
          \<longrightarrow> settled (generateThumbnails dec N) = Inl GenerationTimeout)
       \<and> settled_at (generateThumbnails dec' N') \<le> generationTimeoutMs
       \<and> (settled_at (generateThumbnails dec' N') = generationTimeoutMs
            \<longleftrightarrow> settled (generateThumbnails dec' N') = Inl GenerationTimeout)
       \<and> (\<forall>ths. settled (generateThumbnails dec' N') = Inr ths \<longrightarrow> length ths = N')"
proof -
  let ?start = "t + d + (\<Sum>j<k. lat j)"
  let ?ev = "onseek dec k (D * real k / real N)"
  have run: "generateThumbnails dec N
       = sampleLoop dec D N k ?start (map (\<lambda>j. Frame (D * real j / real N)) [0..<k])"
    using assms(2) by (intro generateThumbnails_prefix[OF assms(1) _ assms(3,4)]) simp
  have seek_timeout: "settled (generateThumbnails dec N) = Inl SeekTimeout"
    if "\<forall>L. seekedAfter ?ev = Some L \<longrightarrow> seekTimeoutMs \<le> L"
      and "?start + seekTimeoutMs < generationTimeoutMs"
    using that unfolding run
    by (cases ?ev) (simp_all add: sampleLoop_step[OF assms(2)] rejected_def)
  have generation_timeout: "settled (generateThumbnails dec N) = Inl GenerationTimeout"
    if "\<forall>L. seekedAfter ?ev = Some L \<longrightarrow> generationTimeoutMs \<le> ?start + L"
      and "generationTimeoutMs \<le> ?start + seekTimeoutMs"
    using that unfolding run
    by (cases ?ev) (simp_all add: sampleLoop_step[OF assms(2)] generationTimedOut_def)
  from generateThumbnails_settles[of dec' N'] generateThumbnails_Inr[of dec' N']
    seek_timeout generation_timeout
  show ?thesis
    by (simp add: settles_in_time_def)
qed

text \<open>
  A third seek that never completes fails the call with \<open>SeekTimeout\<close> after two frames;
  seeks of 4.9 seconds each let the call reach the 30-second mark after six frames, where
  it fails with \<open>GenerationTimeout\<close>.
\<close>

theorem sampling_timeouts_witness:
  "settled (generateThumbnails stalling_decoder 20) = Inl SeekTimeout
   \<and> settled (generateThumbnails slow_decoder 20) = Inl GenerationTimeout
   \<and> settled_at (generateThumbnails slow_decoder 20) = generationTimeoutMs"
  using sampling_timeouts
      [of stalling_decoder 100 60 200 2 20 "\<lambda>j. 100" slow_decoder 20]
    sampling_timeouts
      [of slow_decoder 100 60 200 6 20 "\<lambda>j. 4900" slow_decoder 20]
  by (simp add: stalling_decoder_def slow_decoder_def seekTimeoutMs_def generationTimeoutMs_def)

text \<open>
  On every path the URL has been revoked once when the promise settles. Unless the
  whole-operation timer itself ends the call, that timer is still set at that moment: no
  path clears it.
\<close>

lemma whole_operation_timer_never_cleared:
  "revocations (generateThumbnails dec N) = 1
   \<and> (settled (generateThumbnails dec N) \<noteq> Inl GenerationTimeout \<longrightarrow>
        pending_timers (generateThumbnails dec N) = [(GenerationTimer, generationTimeoutMs)])"
  using generateThumbnails_settles [of dec N] by (simp add: settles_in_time_def)

text \<open>
  C5. The call that samples one frame of the one-minute video resolves after 350 ms with
  the URL revoked once, and with the whole-operation timer, due at 30 seconds, still set:
  the timer outlives the call.
\<close>

theorem generation_timer_outlives_call:
  "generateThumbnails quick_decoder 1
     = \<lparr>settled = Inr [Frame 0], settled_at = 350, revocations = 1,
        pending_timers = [(GenerationTimer, 30000)]\<rparr>"
  by (simp add: generateThumbnails_def quick_decoder_def sampleLoop_step sampleLoop_end
        resolved_def seekTimeoutMs_def generationTimeoutMs_def)

text \<open>
  C10. With a count of 0 the call resolves with the empty list as soon as the video has
  loaded, whatever the duration is and whatever a seek would do: no round of the loop
  runs.
\<close>

theorem zero_thumbnails_resolves_empty:
  assumes "onload dec = LoadedMetadata t D (LoadedData d)" and "t + d < generationTimeoutMs"
  shows "settled (generateThumbnails dec 0) = Inr []
       \<and> settled_at (generateThumbnails dec 0) = t + d"
  by (simp add: generateThumbnails_loaded[OF assms] sampleLoop_end resolved_def)

theorem zero_thumbnails_resolves_empty_witness:
  "onload stalling_decoder = LoadedMetadata 100 60 (LoadedData 200)
   \<and> 100 + 200 < generationTimeoutMs
   \<and> settled (generateThumbnails stalling_decoder 0) = Inr []
   \<and> settled_at (generateThumbnails stalling_decoder 0) = 300"
  using zero_thumbnails_resolves_empty [of stalling_decoder 100 60 200]
  by (simp add: stalling_decoder_def generationTimeoutMs_def)

section \<open>Properties of the submit handler\<close>

lemma find_first:
  "xs = pre @ f # post \<Longrightarrow> \<forall>g \<in> set pre. \<not> P g \<Longrightarrow> P f \<Longrightarrow> find P xs = Some f"
  by (induction pre arbitrary: xs) auto

lemma find_no_match: "\<forall>g \<in> set xs. \<not> P g \<Longrightarrow> find P xs = None"
  by (simp add: find_None_iff)

lemmas handler_parts = app_after_def storage_after_def effects_of_def handleGetFormats_def
  getVideo_def getAllVideos_def storeVideo_def initialize_def idb_getAll_def idb_get_def caught_def

lemma quick_decoder_thumbnails:
  "settled (generateThumbnails quick_decoder defaultNumThumbnails)
     = Inr (map (\<lambda>i. Frame (3 * real i)) [0..<20])"
proof -
  have "generateThumbnails quick_decoder 20
      = sampleLoop quick_decoder 60 20 20 (100 + 200 + (\<Sum>j<(20::nat). 50))
          (map (\<lambda>j. Frame (60 * real j / real 20)) [0..<20])"
    by (rule generateThumbnails_prefix [where lat = "\<lambda>j. 50"])
      (simp_all add: quick_decoder_def seekTimeoutMs_def generationTimeoutMs_def)
  then show ?thesis
    by (simp add: sampleLoop_end resolved_def defaultNumThumbnails_def)
qed

lemma stalling_decoder_times_out:
  "settled (generateThumbnails stalling_decoder defaultNumThumbnails) = Inl SeekTimeout"
proof -
  have "generateThumbnails stalling_decoder 20
      = sampleLoop stalling_decoder 60 20 2 (100 + 200 + (\<Sum>j<(2::nat). 100))
          (map (\<lambda>j. Frame (60 * real j / real 20)) [0..<2])"
    by (rule generateThumbnails_prefix [where lat = "\<lambda>j. 100"])
      (simp_all add: stalling_decoder_def seekTimeoutMs_def generationTimeoutMs_def)
  then show ?thesis
    by (simp add: sampleLoop_step stalling_decoder_def rejected_def defaultNumThumbnails_def
          seekTimeoutMs_def generationTimeoutMs_def)
qed

lemmas scenario_defs = submit_state_def long_video_state_def two_record_service_def
  old_record_def young_record_def listing_def format_a_def format_b_def

lemma submit_ok_run:
  "snd (handleGetFormats backend_ok submit_state two_record_service)
     = (\<lparr>db = True, videos = [new_record, old_record, young_record]\<rparr>,
        [FormatsRequested ''https://example.org/new'',
         DownloadRequested \<lparr>req_url = ''https://example.org/new'', req_format_id = ''b''\<rparr>,
         StoreWritten new_record])"
  apply (simp add: handleGetFormats_def backend_ok_def getVideo_def initialize_def idb_get_def
      Let_def submit_state_def long_video_state_def two_record_service_def old_record_def
      young_record_def)
  apply (simp add: listing_def format_a_def format_b_def)
  apply (simp add: quick_decoder_thumbnails)
  apply (simp add: storeVideo_def getAllVideos_def idb_put_def idb_getAll_def initialize_def
      new_record_def listing_def Let_def)
  done

lemma submit_stalling_run:
  "error (fst (handleGetFormats backend_stalling submit_state two_record_service)) = ''Seek timeout''"
  "\<not> loading (fst (handleGetFormats backend_stalling submit_state two_record_service))"
  "snd (handleGetFormats backend_stalling submit_state two_record_service)
     = (\<lparr>db = True, videos = [old_record, young_record]\<rparr>,
        [FormatsRequested ''https://example.org/new'',
         DownloadRequested \<lparr>req_url = ''https://example.org/new'', req_format_id = ''b''\<rparr>])"
  apply (simp_all add: handleGetFormats_def backend_stalling_def backend_ok_def getVideo_def
      initialize_def idb_get_def Let_def submit_state_def long_video_state_def
      two_record_service_def old_record_def young_record_def)
  apply (simp_all add: listing_def format_a_def format_b_def)
  apply (simp_all add: stalling_decoder_times_out caught_def)
  done

text \<open>
  C7. Let the submitted URL have no stored record and let the format query answer with a
  listing. If some format of the listing carries audio, the handler sends exactly one
  download request, for the URL and the \<open>format_id\<close> of the first such format. If none
  does, the handler sends no download request and writes nothing; it ends with the error
  message set and \<open>loading\<close> off, the condition in which the submit button is enabled. A
  record the handler writes has the submitted URL as its key and is what a lookup of the
  URL returns afterwards; the handler writes one when the download and the thumbnail
  generation succeed.
\<close>

theorem submit_requests_first_audio_format:
  assumes "fst (getVideo (app_url s) storage) = None"
    and "post_formats env (app_url s) = Ok data"
  shows "(formats data = pre @ f # post \<and> (\<forall>g \<in> set pre. \<not> has_audio g) \<and> has_audio f \<longrightarrow>
            downloadRequests (effects_of env s storage)
              = [\<lparr>req_url = app_url s, req_format_id = format_id f\<rparr>])
       \<and> ((\<forall>g \<in> set (formats data). \<not> has_audio g) \<longrightarrow>
            error (app_after env s storage) = ''No suitable preview format found''
          \<and> \<not> loading (app_after env s storage)
          \<and> downloadRequests (effects_of env s storage) = []
          \<and> storeWrites (effects_of env s storage) = []
          \<and> videos (storage_after env s storage) = videos storage)
       \<and> (\<forall>r \<in> set (storeWrites (effects_of env s storage)).
            url r = app_url s
          \<and> fst (getVideo (app_url s) (storage_after env s storage)) = Some r
          \<and> error (app_after env s storage) = []
          \<and> \<not> loading (app_after env s storage))
       \<and> (find has_audio (formats data) = Some previewFormat
          \<and> post_download env \<lparr>req_url = app_url s, req_format_id = format_id previewFormat\<rparr>
               = Ok videoBlob
          \<and> settled (generateThumbnails (decode env videoBlob) defaultNumThumbnails) = Inr ths
          \<longrightarrow> storeWrites (effects_of env s storage)
                = [\<lparr>url = app_url s, title = info_title data, blob = videoBlob,
                    timestamp = date_now env, duration = info_duration data,
                    thumbnails = Some ths\<rparr>])"
proof (intro conjI impI ballI)
  assume "formats data = pre @ f # post \<and> (\<forall>g \<in> set pre. \<not> has_audio g) \<and> has_audio f"
  then have "find has_audio (formats data) = Some f"
    by (auto intro: find_first)
  with assms show "downloadRequests (effects_of env s storage)
              = [\<lparr>req_url = app_url s, req_format_id = format_id f\<rparr>]"
    by (auto simp: handler_parts Let_def split: prod.splits fetch_result.splits sum.splits)
next
  assume "\<forall>g \<in> set (formats data). \<not> has_audio g"
  then have none: "find has_audio (formats data) = None"
    by (rule find_no_match)
  with assms show "error (app_after env s storage) = ''No suitable preview format found''"
    "\<not> loading (app_after env s storage)"
    "downloadRequests (effects_of env s storage) = []"
    "storeWrites (effects_of env s storage) = []"
    "videos (storage_after env s storage) = videos storage"
    by (auto simp: handler_parts Let_def split: prod.splits)
next
  fix r assume "r \<in> set (storeWrites (effects_of env s storage))"
  with assms show "url r = app_url s"
    "fst (getVideo (app_url s) (storage_after env s storage)) = Some r"
    "error (app_after env s storage) = []"
    "\<not> loading (app_after env s storage)"
    by (auto simp: handler_parts idb_put_def Let_def
        split: prod.splits option.splits fetch_result.splits sum.splits if_splits)
next
  assume "find has_audio (formats data) = Some previewFormat
          \<and> post_download env \<lparr>req_url = app_url s, req_format_id = format_id previewFormat\<rparr>
               = Ok videoBlob
          \<and> settled (generateThumbnails (decode env videoBlob) defaultNumThumbnails) = Inr ths"
  with assms show "storeWrites (effects_of env s storage)
                = [\<lparr>url = app_url s, title = info_title data, blob = videoBlob,
                    timestamp = date_now env, duration = info_duration data,
                    thumbnails = Some ths\<rparr>]"
    by (auto simp: handler_parts Let_def split: prod.splits)
qed




text \<open>
  The end-to-end scenario: the listing offers \<open>a\<close> without audio and \<open>b\<close> with audio; the
  download request asks for \<open>b\<close>, and the record is stored under the submitted URL.
\<close>

theorem submit_requests_first_audio_format_witness:
  "fst (getVideo (app_url submit_state) two_record_service) = None
   \<and> formats listing = [format_a] @ format_b # [] \<and> \<not> has_audio format_a \<and> has_audio format_b
   \<and> downloadRequests (effects_of backend_ok submit_state two_record_service)
        = [\<lparr>req_url = ''https://example.org/new'', req_format_id = ''b''\<rparr>]
   \<and> storeWrites (effects_of backend_ok submit_state two_record_service) = [new_record]
   \<and> url new_record = app_url submit_state
   \<and> fst (getVideo ''https://example.org/new''
        (storage_after backend_ok submit_state two_record_service)) = Some new_record
   \<and> error (app_after backend_no_audio submit_state two_record_service)
        = ''No suitable preview format found''
   \<and> \<not> loading (app_after backend_no_audio submit_state two_record_service)"
proof -
  have submitted_url: "app_url submit_state = ''https://example.org/new''"
    by (simp add: submit_state_def)
  have uncached: "fst (getVideo (app_url submit_state) two_record_service) = None"
    by (simp add: getVideo_videos(1) scenario_defs)
  have listed: "post_formats backend_ok (app_url submit_state) = Ok listing"
    by (simp add: backend_ok_def)
  have listed': "post_formats backend_no_audio (app_url submit_state)
      = Ok (listing\<lparr>formats := [format_a]\<rparr>)"
    by (simp add: backend_no_audio_def)
  have first_audio: "find has_audio (formats listing) = Some format_b"
    by (simp add: listing_def format_a_def format_b_def)
  have downloaded: "post_download backend_ok
      \<lparr>req_url = app_url submit_state, req_format_id = format_id format_b\<rparr> = Ok (Blob [7, 8])"
    by (simp add: backend_ok_def format_b_def)
  have sampled: "settled (generateThumbnails (decode backend_ok (Blob [7, 8]))
      defaultNumThumbnails) = Inr (map (\<lambda>i. Frame (3 * real i)) [0..<20])"
    by (simp add: backend_ok_def quick_decoder_thumbnails)
  have stamped: "date_now backend_ok = 200000000"
    by (simp add: backend_ok_def)
  from submit_requests_first_audio_format [OF uncached listed,
      of "[format_a]" format_b "[]" format_b "Blob [7, 8]"
         "map (\<lambda>i. Frame (3 * real i)) [0..<20]"]
    submit_requests_first_audio_format [OF uncached listed', of "[]" format_a "[]"]
    first_audio downloaded sampled
  show ?thesis
    by (simp add: uncached uncached[unfolded submitted_url] submitted_url stamped
        listing_def format_a_def format_b_def new_record_def)
qed

text \<open>
  C8. A run of the handler writes at most one record. Where it writes none the records of
  the store are as before. A write is the last effect of the run: the format query
  answered, the download of the preview format answered with a blob, the thumbnail
  generation returned its list, and the record written is made of exactly these parts.
  When the format query, the download or the thumbnail generation cannot succeed, nothing
  is written and the records of the store are as before.
\<close>

theorem record_written_once_after_success:
  "length (storeWrites (effects_of env s storage)) \<le> 1
   \<and> (storeWrites (effects_of env s storage) = [] \<longrightarrow>
        videos (storage_after env s storage) = videos storage)
   \<and> (\<forall>r \<in> set (storeWrites (effects_of env s storage)).
        \<exists>data f videoBlob ths.
          post_formats env (app_url s) = Ok data
        \<and> find has_audio (formats data) = Some f
        \<and> post_download env \<lparr>req_url = app_url s, req_format_id = format_id f\<rparr> = Ok videoBlob
        \<and> settled (generateThumbnails (decode env videoBlob) defaultNumThumbnails) = Inr ths
        \<and> r = \<lparr>url = app_url s, title = info_title data, blob = videoBlob,
                timestamp = date_now env, duration = info_duration data,
                thumbnails = Some ths\<rparr>
        \<and> effects_of env s storage
            = [FormatsRequested (app_url s),
               DownloadRequested \<lparr>req_url = app_url s, req_format_id = format_id f\<rparr>,
               StoreWritten r]
        \<and> videos (storage_after env s storage) = idb_put r (videos storage))
   \<and> ((\<forall>data. post_formats env (app_url s) \<noteq> Ok data)
        \<or> (\<forall>req videoBlob. post_download env req \<noteq> Ok videoBlob)
        \<or> (\<forall>videoBlob ths.
              settled (generateThumbnails (decode env videoBlob) defaultNumThumbnails) \<noteq> Inr ths)
       \<longrightarrow> storeWrites (effects_of env s storage) = []
         \<and> videos (storage_after env s storage) = videos storage)"
  by (auto simp: handler_parts Let_def
      split: prod.splits option.splits fetch_result.splits sum.splits)


theorem record_written_once_after_success_witness:
  "storeWrites (effects_of backend_stalling submit_state two_record_service) = []
   \<and> videos (storage_after backend_stalling submit_state two_record_service)
        = videos two_record_service
   \<and> error (app_after backend_stalling submit_state two_record_service) = ''Seek timeout''
   \<and> storeWrites (effects_of backend_ok submit_state two_record_service) = [new_record]
   \<and> videos (storage_after backend_ok submit_state two_record_service)
        = [new_record, old_record, young_record]"
proof -
  have stalls: "\<forall>videoBlob ths.
      settled (generateThumbnails (decode backend_stalling videoBlob) defaultNumThumbnails)
        \<noteq> Inr ths"
    by (simp add: backend_stalling_def stalling_decoder_times_out)
  have stored: "videos two_record_service = [old_record, young_record]"
    by (simp add: two_record_service_def)
  from record_written_once_after_success [of backend_stalling submit_state two_record_service]
    record_written_once_after_success [of backend_ok submit_state two_record_service] stalls
  show ?thesis
    by (simp add: app_after_def storage_after_def effects_of_def submit_ok_run
        submit_stalling_run stored)
qed


end
